theory Spec2Isabelle
  imports Main
begin

section \<open>The OLX car cover scraper\<close>

text \<open>
  A shallow embedding of \<^verbatim>\<open>olx_car_cover_scraper.py\<close>. The script is glue over four
  libraries (requests, BeautifulSoup, json, csv) and the standard library's
  \<^verbatim>\<open>urljoin\<close>. The script's own functions are translated statement by statement; what
  the libraries and the outside world contribute is either a parameter of the
  environment (the network, the HTML parser, \<^verbatim>\<open>urljoin\<close>, whether a file can be opened for
  writing), each with the exceptions it can raise, or a small model of the documented library behaviour (searching and reading a
  parsed tree, the row discipline of \<^verbatim>\<open>csv.DictWriter\<close>).

  Python strings are modelled as \<^typ>\<open>string\<close>, one \<^typ>\<open>char\<close> per code point, which
  covers the code points below 256.
\<close>

subsection \<open>Python values\<close>

datatype py_error = ValueError | KeyError | OSError | ParserRejectedMarkup

text \<open>
  A Python \<^verbatim>\<open>dict\<close> with string keys and string values, in insertion order: assigning to a
  key that exists replaces its value in place, assigning to a new key appends it.
\<close>

type_synonym listing = "(string \<times> string) list"

fun dict_set :: "listing \<Rightarrow> string \<Rightarrow> string \<Rightarrow> listing" where
  "dict_set [] k v = [(k, v)]"
| "dict_set ((k', v') # d) k v = (if k' = k then (k, v) # d else (k', v') # dict_set d k v)"

definition dict_keys :: "listing \<Rightarrow> string list" where
  "dict_keys d = map fst d"

text \<open>\<^verbatim>\<open>d[k]\<close> raises \<^verbatim>\<open>KeyError\<close> for a missing key.\<close>

definition dict_get :: "listing \<Rightarrow> string \<Rightarrow> py_error + string" where
  "dict_get d k = (case map_of d k of None \<Rightarrow> Inl KeyError | Some v \<Rightarrow> Inr v)"

text \<open>\<^verbatim>\<open>str(n)\<close> for an integer, used by the f-string that builds a page address.\<close>

definition digit_char :: "nat \<Rightarrow> char" where
  "digit_char d = ''0123456789'' ! d"

function str_nat :: "nat \<Rightarrow> string" where
  "str_nat n = (if n < 10 then [digit_char n] else str_nat (n div 10) @ [digit_char (n mod 10)])"
  by pat_completeness auto
termination
  by (relation "measure (\<lambda>n. n)") auto

declare str_nat.simps [simp del]

definition str_int :: "int \<Rightarrow> string" where
  "str_int i = (if i < 0 then CHR ''-'' # str_nat (nat (- i)) else str_nat (nat i))"

text \<open>
  \<^verbatim>\<open>str.strip()\<close> removes leading and trailing whitespace; these are the code points
  below 256 for which \<^verbatim>\<open>str.isspace\<close> holds.
\<close>

definition isspace :: "char \<Rightarrow> bool" where
  "isspace c = ((of_char c :: nat) \<in> {9, 10, 11, 12, 13, 28, 29, 30, 31, 32, 133, 160})"

definition strip :: "string \<Rightarrow> string" where
  "strip s = rev (dropWhile isspace (rev (dropWhile isspace s)))"

subsection \<open>The parsed page (BeautifulSoup)\<close>

text \<open>
  A parsed document is a tree of tags, text strings and strings of the other classes
  (comments, declarations), which \<^verbatim>\<open>get_text\<close> leaves out. A tag carries its name, its
  attributes and its children. The value of an attribute is kept as the text written in
  the markup.
\<close>

datatype node =
    Tag string "(string \<times> string) list" "node list"
  | NavigableString string
  | Comment string

text \<open>\<^verbatim>\<open>tag.descendants\<close>: every node below the tag, in document order, the tag itself excluded.\<close>

fun descendants :: "node \<Rightarrow> node list" where
  "descendants (Tag name attrs contents) = concat (map (\<lambda>c. c # descendants c) contents)"
| "descendants (NavigableString s) = []"
| "descendants (Comment s) = []"

fun tag_name :: "node \<Rightarrow> string option" where
  "tag_name (Tag name attrs contents) = Some name"
| "tag_name _ = None"

fun tag_attr :: "node \<Rightarrow> string \<Rightarrow> string option" where
  "tag_attr (Tag name attrs contents) a = map_of attrs a"
| "tag_attr _ a = None"

text \<open>
  The regular expression \<^verbatim>\<open>re.compile(r'.*item.*', re.I)\<close> is applied with \<^verbatim>\<open>search\<close>: it
  succeeds exactly when the text contains \<^verbatim>\<open>item\<close> in any mix of cases. BeautifulSoup
  tries it on each whitespace-separated class and on the classes joined by single
  spaces; the pattern holds no whitespace, so this is the same as trying it on the text
  of the attribute.
\<close>

fun starts_with_item :: "string \<Rightarrow> bool" where
  "starts_with_item (a # b # c # d # s) =
     (a \<in> set ''iI'' \<and> b \<in> set ''tT'' \<and> c \<in> set ''eE'' \<and> d \<in> set ''mM'')"
| "starts_with_item s = False"

fun re_search_item :: "string \<Rightarrow> bool" where
  "re_search_item [] = False"
| "re_search_item (c # s) = (starts_with_item (c # s) \<or> re_search_item s)"

text \<open>
  The three ways the script constrains an attribute: a string (the value must be equal),
  \<^verbatim>\<open>True\<close> (the attribute must be there), the regular expression above (an absent attribute
  does not match).
\<close>

datatype attr_filter = Equals string | IsTrue | ItemRegex

fun attr_matches :: "attr_filter \<Rightarrow> string option \<Rightarrow> bool" where
  "attr_matches (Equals v) a = (a = Some v)"
| "attr_matches IsTrue a = (a \<noteq> None)"
| "attr_matches ItemRegex a = (case a of None \<Rightarrow> False | Some v \<Rightarrow> re_search_item v)"

definition tag_matches :: "string \<Rightarrow> string \<Rightarrow> attr_filter \<Rightarrow> node \<Rightarrow> bool" where
  "tag_matches name a f n = (tag_name n = Some name \<and> attr_matches f (tag_attr n a))"

text \<open>\<^verbatim>\<open>find_all(name, {a: f})\<close> and \<^verbatim>\<open>find(name, {a: f})\<close>, the latter \<^verbatim>\<open>None\<close> when nothing matches.\<close>

definition find_all :: "node \<Rightarrow> string \<Rightarrow> string \<Rightarrow> attr_filter \<Rightarrow> node list" where
  "find_all n name a f = filter (tag_matches name a f) (descendants n)"

definition find_tag :: "node \<Rightarrow> string \<Rightarrow> string \<Rightarrow> attr_filter \<Rightarrow> node option" where
  "find_tag n name a f = (case find_all n name a f of [] \<Rightarrow> None | e # es \<Rightarrow> Some e)"

text \<open>
  \<^verbatim>\<open>get_text(strip=True)\<close>: the text strings below the element, each stripped, the empty
  ones dropped, joined without a separator.
\<close>

fun strings :: "node list \<Rightarrow> string list" where
  "strings [] = []"
| "strings (NavigableString s # ns) = s # strings ns"
| "strings (n # ns) = strings ns"

definition get_text_strip :: "node \<Rightarrow> string" where
  "get_text_strip e = concat (filter (\<lambda>s. s \<noteq> []) (map strip (strings (descendants e))))"

subsection \<open>The environment and the effects\<close>

text \<open>
  What the script does not decide itself: the answer of the network to a GET request
  (a body, or a \<^verbatim>\<open>requests.RequestException\<close>, which covers timeouts, connection errors and
  the error statuses that \<^verbatim>\<open>raise_for_status\<close> turns into exceptions), the tree that
  \<^verbatim>\<open>BeautifulSoup(content, 'html.parser')\<close> builds from a body (or the exception it raises
  on markup the parser rejects, \<^verbatim>\<open><![x]>\<close> for one), the result of
  \<^verbatim>\<open>urljoin\<close> (which raises \<^verbatim>\<open>ValueError\<close> on some malformed addresses), and whether \<^verbatim>\<open>open\<close>
  succeeds on a file name.
\<close>

datatype http_result = RequestException string | Content string

record env =
  http_get :: "string \<Rightarrow> http_result"
  html_parser :: "string \<Rightarrow> py_error + node"
  urljoin :: "string \<Rightarrow> string \<Rightarrow> py_error + string"
  writable :: "string \<Rightarrow> bool"

text \<open>
  Log records and printed lines are kept as structured values, one constructor per
  message of the source, in place of the formatted text.
\<close>

datatype level = INFO | WARNING | ERROR

datatype message =
    StartingScraper
  | ScrapingPage int
  | ErrorFetching string string
  | FailedToFetchPage int
  | NoListingsFoundOnPage int
  | FoundListingsOnPage nat int
  | ErrorParsingListing py_error
  | SavedListings nat string
  | NoListingsToSave
  | ErrorSavingToJson py_error
  | ErrorSavingToCsv py_error
  | SuccessfullyScraped nat
  | NoListingsFound
  | ErrorInMainExecution py_error

datatype printed =
    SummaryHeader
  | TotalListingsFound nat
  | FilesSaved
  | SampleHeader
  | SampleTitle nat string
  | SamplePrice string
  | SampleLocation string
  | SampleDate string
  | SampleLink string

datatype event =
    Log level message
  | HttpGet string
  | Sleep nat
  | Print printed

text \<open>
  The two output files are kept as what the serializers are given to encode: a JSON
  value, or the rows of a CSV file (the header row first).
\<close>

datatype json = JString string | JArray "json list" | JObject "(string \<times> json) list"

datatype file_content = JsonFile json | CsvFile "string list list"

record state =
  trace :: "event list"
  files :: "string \<Rightarrow> file_content option"

definition emit :: "event \<Rightarrow> state \<Rightarrow> state" where
  "emit e st = st\<lparr>trace := trace st @ [e]\<rparr>"

definition write_file :: "string \<Rightarrow> file_content \<Rightarrow> state \<Rightarrow> state" where
  "write_file filename c st = st\<lparr>files := (files st)(filename \<mapsto> c)\<rparr>"

subsection \<open>class OLXCarCoverScraper\<close>

definition base_url :: string where
  "base_url = ''https://www.olx.in''"

definition search_url :: string where
  "search_url = ''https://www.olx.in/items/q-car-cover''"

text \<open>\<^verbatim>\<open>get_page_content\<close>: the body, or \<^verbatim>\<open>None\<close> after logging the exception.\<close>

definition get_page_content :: "env \<Rightarrow> string \<Rightarrow> state \<Rightarrow> string option \<times> state" where
  "get_page_content env url st =
     (case http_get env url of
        Content c \<Rightarrow> (Some c, emit (HttpGet url) st)
      | RequestException e \<Rightarrow>
          (None, emit (Log ERROR (ErrorFetching url e)) (emit (HttpGet url) st)))"

text \<open>
  \<^verbatim>\<open>parse_listing\<close>. The body of its \<^verbatim>\<open>try\<close> is \<open>parse_fields\<close>: the six assignments in
  the order of the source, where the one for the link can raise (\<^verbatim>\<open>link_elem['href']\<close>,
  \<^verbatim>\<open>urljoin\<close>). A tag is truthy whatever its contents, so \<^verbatim>\<open>if title_elem\<close> tests for
  \<^verbatim>\<open>None\<close> only.
\<close>

definition marker_text :: "node \<Rightarrow> string \<Rightarrow> string" where
  "marker_text listing_element marker =
     (case find_tag listing_element ''span'' ''data-aut-id'' (Equals marker) of
        Some elem \<Rightarrow> get_text_strip elem
      | None \<Rightarrow> ''N/A'')"

definition link_value :: "env \<Rightarrow> node \<Rightarrow> py_error + string" where
  "link_value env listing_element =
     (case find_tag listing_element ''a'' ''href'' IsTrue of
        Some link_elem \<Rightarrow>
          (case tag_attr link_elem ''href'' of
             None \<Rightarrow> Inl KeyError
           | Some href \<Rightarrow> urljoin env base_url href)
      | None \<Rightarrow> Inr ''N/A'')"

definition parse_fields :: "env \<Rightarrow> node \<Rightarrow> py_error + listing" where
  "parse_fields env listing_element =
     (let listing_data = [];
          listing_data = dict_set listing_data ''title'' (marker_text listing_element ''itemTitle'');
          listing_data = dict_set listing_data ''price'' (marker_text listing_element ''itemPrice'');
          listing_data = dict_set listing_data ''location''
                           (marker_text listing_element ''item-location'')
      in case link_value env listing_element of
           Inl e \<Rightarrow> Inl e
         | Inr link \<Rightarrow>
             (let listing_data = dict_set listing_data ''link'' link;
                  listing_data = dict_set listing_data ''date''
                                   (marker_text listing_element ''itemDate'');
                  listing_data = dict_set listing_data ''description''
                                   (marker_text listing_element ''itemDescription'')
              in Inr listing_data))"

definition parse_listing :: "env \<Rightarrow> node \<Rightarrow> state \<Rightarrow> listing option \<times> state" where
  "parse_listing env listing_element st =
     (case parse_fields env listing_element of
        Inr listing_data \<Rightarrow> (Some listing_data, st)
      | Inl e \<Rightarrow> (None, emit (Log ERROR (ErrorParsingListing e)) st))"

text \<open>
  \<^verbatim>\<open>scrape_listings\<close>. The address of a page, the two discovery strategies, the inner
  loop over the listings of one page, the body of the outer loop, and the outer loop.
  The body reports how it leaves: \<open>Continue\<close> for the next page (also after
  \<^verbatim>\<open>continue\<close>), \<open>Break\<close> for \<^verbatim>\<open>break\<close>, \<open>Raise\<close> for an exception that nothing in
  \<^verbatim>\<open>scrape_listings\<close> catches: the one \<^verbatim>\<open>BeautifulSoup(content, 'html.parser')\<close> raises,
  and \<^verbatim>\<open>parsed_listing['title']\<close> on a dict without that key. An exception ends the loop
  and \<^verbatim>\<open>scrape_listings\<close> with it: the collection is not returned.
\<close>

definition page_url :: "int \<Rightarrow> string" where
  "page_url page = (if page = 1 then search_url else search_url @ ''?page='' @ str_int page)"

definition find_listings :: "node \<Rightarrow> node list" where
  "find_listings soup =
     (let listings = find_all soup ''div'' ''data-aut-id'' (Equals ''itemBox'')
      in if listings = [] then find_all soup ''div'' ''class'' ItemRegex else listings)"

fun parse_listings ::
  "env \<Rightarrow> node list \<Rightarrow> listing list \<Rightarrow> state \<Rightarrow> py_error option \<times> listing list \<times> state" where
  "parse_listings env [] all_listings st = (None, all_listings, st)"
| "parse_listings env (listing # listings) all_listings st =
     (case parse_listing env listing st of
        (None, st') \<Rightarrow> parse_listings env listings all_listings st'
      | (Some parsed_listing, st') \<Rightarrow>
          if parsed_listing = [] then parse_listings env listings all_listings st'
          else (case dict_get parsed_listing ''title'' of
                  Inl e \<Rightarrow> (Some e, all_listings, st')
                | Inr title \<Rightarrow>
                    if title \<noteq> ''N/A''
                    then parse_listings env listings (all_listings @ [parsed_listing]) st'
                    else parse_listings env listings all_listings st'))"

datatype flow = Continue | Break | Raise py_error

definition scrape_page :: "env \<Rightarrow> int \<Rightarrow> listing list \<Rightarrow> state \<Rightarrow> flow \<times> listing list \<times> state" where
  "scrape_page env page all_listings st =
     (let st = emit (Log INFO (ScrapingPage page)) st;
          url = page_url page;
          (content, st) = get_page_content env url st
      in case content of
           None \<Rightarrow> (Continue, all_listings, emit (Log WARNING (FailedToFetchPage page)) st)
         | Some c \<Rightarrow>
             if c = []
             then (Continue, all_listings, emit (Log WARNING (FailedToFetchPage page)) st)
             else
               (case html_parser env c of
                  Inl e \<Rightarrow> (Raise e, all_listings, st)
                | Inr soup \<Rightarrow>
                    (let listings = find_listings soup
                     in if listings = []
                        then (Break, all_listings,
                              emit (Log WARNING (NoListingsFoundOnPage page)) st)
                        else
                          (let st = emit (Log INFO (FoundListingsOnPage (length listings) page)) st
                           in case parse_listings env listings all_listings st of
                                (Some e, all_listings, st) \<Rightarrow> (Raise e, all_listings, st)
                              | (None, all_listings, st) \<Rightarrow>
                                  (Continue, all_listings, emit (Sleep 2) st)))))"

fun scrape_pages ::
  "env \<Rightarrow> int list \<Rightarrow> listing list \<Rightarrow> state \<Rightarrow> (py_error + listing list) \<times> state" where
  "scrape_pages env [] all_listings st = (Inr all_listings, st)"
| "scrape_pages env (page # pages) all_listings st =
     (case scrape_page env page all_listings st of
        (Continue, all_listings', st') \<Rightarrow> scrape_pages env pages all_listings' st'
      | (Break, all_listings', st') \<Rightarrow> (Inr all_listings', st')
      | (Raise e, all_listings', st') \<Rightarrow> (Inl e, st'))"

definition scrape_listings :: "env \<Rightarrow> int \<Rightarrow> state \<Rightarrow> (py_error + listing list) \<times> state" where
  "scrape_listings env max_pages st = scrape_pages env [1..max_pages] [] st"

text \<open>
  \<^verbatim>\<open>save_to_json\<close>: \<^verbatim>\<open>json.dump\<close> encodes the list as an array of objects, the keys of
  each in the order of its dict. A failure to open the file is caught and logged.
\<close>

definition json_of_listing :: "listing \<Rightarrow> json" where
  "json_of_listing d = JObject (map (\<lambda>(k, v). (k, JString v)) d)"

definition save_to_json :: "env \<Rightarrow> listing list \<Rightarrow> string \<Rightarrow> state \<Rightarrow> state" where
  "save_to_json env listings filename st =
     (if \<not> writable env filename then emit (Log ERROR (ErrorSavingToJson OSError)) st
      else emit (Log INFO (SavedListings (length listings) filename))
             (write_file filename (JsonFile (JArray (map json_of_listing listings))) st))"

text \<open>
  \<^verbatim>\<open>save_to_csv\<close>. \<^verbatim>\<open>csv.DictWriter\<close> turns a dict into a row by reading each field name
  in turn (the empty string for a missing key) and raises \<^verbatim>\<open>ValueError\<close> on a dict with a
  key that is not a field name. \<^verbatim>\<open>writerows\<close> writes row after row, so the rows before a
  failing one are in the file when the exception is caught.
\<close>

definition dict_to_list :: "string list \<Rightarrow> listing \<Rightarrow> py_error + string list" where
  "dict_to_list fieldnames rowdict =
     (if \<exists>k \<in> set (dict_keys rowdict). k \<notin> set fieldnames then Inl ValueError
      else Inr (map (\<lambda>key. case map_of rowdict key of Some v \<Rightarrow> v | None \<Rightarrow> []) fieldnames))"

fun writerows ::
  "string list \<Rightarrow> listing list \<Rightarrow> string list list \<Rightarrow> py_error option \<times> string list list" where
  "writerows fieldnames [] written = (None, written)"
| "writerows fieldnames (rowdict # rowdicts) written =
     (case dict_to_list fieldnames rowdict of
        Inl e \<Rightarrow> (Some e, written)
      | Inr row \<Rightarrow> writerows fieldnames rowdicts (written @ [row]))"

definition save_to_csv :: "env \<Rightarrow> listing list \<Rightarrow> string \<Rightarrow> state \<Rightarrow> state" where
  "save_to_csv env listings filename st =
     (case listings of
        [] \<Rightarrow> emit (Log WARNING NoListingsToSave) st
      | first # rest \<Rightarrow>
          (let fieldnames = dict_keys first
           in if \<not> writable env filename then emit (Log ERROR (ErrorSavingToCsv OSError)) st
              else
                (case writerows fieldnames listings [fieldnames] of
                   (None, rows) \<Rightarrow>
                     emit (Log INFO (SavedListings (length listings) filename))
                       (write_file filename (CsvFile rows) st)
                 | (Some e, rows) \<Rightarrow>
                     emit (Log ERROR (ErrorSavingToCsv e))
                       (write_file filename (CsvFile rows) st))))"

subsection \<open>main\<close>

text \<open>
  The lines printed for one sample listing, each reading one key of the dict; a missing
  key raises after the lines before it were printed.
\<close>

fun print_lines ::
  "((string \<Rightarrow> printed) \<times> string) list \<Rightarrow> listing \<Rightarrow> state \<Rightarrow> py_error option \<times> state" where
  "print_lines [] listing st = (None, st)"
| "print_lines ((line, key) # ls) listing st =
     (case dict_get listing key of
        Inl e \<Rightarrow> (Some e, st)
      | Inr v \<Rightarrow> print_lines ls listing (emit (Print (line v)) st))"

fun print_samples :: "nat \<Rightarrow> listing list \<Rightarrow> state \<Rightarrow> py_error option \<times> state" where
  "print_samples i [] st = (None, st)"
| "print_samples i (listing # listings) st =
     (case print_lines
             [(SampleTitle (i + 1), ''title''), (SamplePrice, ''price''),
              (SampleLocation, ''location''), (SampleDate, ''date''), (SampleLink, ''link'')]
             listing st of
        (Some e, st') \<Rightarrow> (Some e, st')
      | (None, st') \<Rightarrow> print_samples (i + 1) listings st')"

definition main :: "env \<Rightarrow> state \<Rightarrow> state" where
  "main env st0 =
     (let st = emit (Log INFO StartingScraper) st0
      in case scrape_listings env 3 st of
           (Inl e, st) \<Rightarrow> emit (Log ERROR (ErrorInMainExecution e)) st
         | (Inr listings, st) \<Rightarrow>
             if listings \<noteq> [] then
               (let st = emit (Log INFO (SuccessfullyScraped (length listings))) st;
                    st = save_to_json env listings ''olx_car_covers.json'' st;
                    st = save_to_csv env listings ''olx_car_covers.csv'' st;
                    st = emit (Print SummaryHeader) st;
                    st = emit (Print (TotalListingsFound (length listings))) st;
                    st = emit (Print FilesSaved) st;
                    st = emit (Print SampleHeader) st
                in case print_samples 0 (take 3 listings) st of
                     (Some e, st) \<Rightarrow> emit (Log ERROR (ErrorInMainExecution e)) st
                   | (None, st) \<Rightarrow> st)
             else emit (Log WARNING NoListingsFound) st)"

subsection \<open>Vocabulary for the properties\<close>

text \<open>
  The requests a trace holds, in order.
\<close>

fun requests :: "event list \<Rightarrow> string list" where
  "requests [] = []"
| "requests (HttpGet url # evs) = url # requests evs"
| "requests (ev # evs) = requests evs"



text \<open>
  What the loop goes on with for a page: the body it tests with \<^verbatim>\<open>if not content\<close> (nothing
  for an exception and for an empty body), the exception the parser raises on that body,
  if it raises, and the candidate nodes the two strategies find in the parsed body.
  Discovery fails on a page that was fetched and parsed and has no candidate node.
\<close>

definition page_content :: "env \<Rightarrow> int \<Rightarrow> string option" where
  "page_content env page =
     (case http_get env (page_url page) of
        RequestException e \<Rightarrow> None
      | Content c \<Rightarrow> if c = [] then None else Some c)"

definition parse_error :: "env \<Rightarrow> int \<Rightarrow> py_error option" where
  "parse_error env page =
     (case page_content env page of
        None \<Rightarrow> None
      | Some c \<Rightarrow> (case html_parser env c of Inl e \<Rightarrow> Some e | Inr soup \<Rightarrow> None))"

definition candidates :: "env \<Rightarrow> int \<Rightarrow> node list" where
  "candidates env page =
     (case page_content env page of
        None \<Rightarrow> []
      | Some c \<Rightarrow> (case html_parser env c of Inl e \<Rightarrow> [] | Inr soup \<Rightarrow> find_listings soup))"

definition discovery_fails :: "env \<Rightarrow> int \<Rightarrow> bool" where
  "discovery_fails env page =
     (page_content env page \<noteq> None \<and> parse_error env page = None \<and> candidates env page = [])"



text \<open>
  The record a node contributes: the one \<^verbatim>\<open>parse_listing\<close> returns, when it returns one
  and its title is not the sentinel.
\<close>

definition valid_record :: "env \<Rightarrow> node \<Rightarrow> listing option" where
  "valid_record env n =
     (case parse_fields env n of
        Inl e \<Rightarrow> None
      | Inr d \<Rightarrow> if dict_get d ''title'' = Inr ''N/A'' then None else Some d)"

definition valid_records :: "env \<Rightarrow> node list \<Rightarrow> listing list" where
  "valid_records env ns = List.map_filter (valid_record env) ns"

definition parse_errors :: "env \<Rightarrow> node list \<Rightarrow> event list" where
  "parse_errors env ns =
     concat (map (\<lambda>n. case parse_fields env n of
                          Inl e \<Rightarrow> [Log ERROR (ErrorParsingListing e)]
                        | Inr d \<Rightarrow> []) ns)"

text \<open>
  The pages the loop gets to, out of the pages it is given: all of them up to and
  including the first one where discovery fails or the parser raises. The exception the
  loop ends with, if it ends with one.
\<close>

fun attempted :: "env \<Rightarrow> int list \<Rightarrow> int list" where
  "attempted env [] = []"
| "attempted env (page # pages) =
     page # (if discovery_fails env page \<or> parse_error env page \<noteq> None then []
             else attempted env pages)"

fun run_error :: "env \<Rightarrow> int list \<Rightarrow> py_error option" where
  "run_error env [] = None"
| "run_error env (page # pages) =
     (case parse_error env page of
        Some e \<Rightarrow> Some e
      | None \<Rightarrow> if discovery_fails env page then None else run_error env pages)"

definition listing_keys :: "string list" where
  "listing_keys = [''title'', ''price'', ''location'', ''link'', ''date'', ''description'']"

text \<open>Reading a field back from each of the two files.\<close>

fun json_field :: "json \<Rightarrow> string \<Rightarrow> string option" where
  "json_field (JObject kvs) k = (case map_of kvs k of Some (JString v) \<Rightarrow> Some v | _ \<Rightarrow> None)"
| "json_field j k = None"

definition csv_field :: "string list \<Rightarrow> string list \<Rightarrow> string \<Rightarrow> string option" where
  "csv_field header row k = map_of (zip header row) k"

text \<open>The row \<^verbatim>\<open>DictWriter\<close> writes for a dict whose keys are all field names.\<close>

definition row_of :: "string list \<Rightarrow> listing \<Rightarrow> string list" where
  "row_of fieldnames rowdict =
     map (\<lambda>key. case map_of rowdict key of Some v \<Rightarrow> v | None \<Rightarrow> []) fieldnames"

subsection \<open>Sample inputs\<close>

definition init_state :: state where
  "init_state = \<lparr>trace = [], files = Map.empty\<rparr>"

definition marker_span :: "string \<Rightarrow> string \<Rightarrow> node" where
  "marker_span marker t = Tag ''span'' [(''data-aut-id'', marker)] [NavigableString t]"

definition cover_a :: node where
  "cover_a =
     Tag ''div'' [(''data-aut-id'', ''itemBox'')]
       [Tag ''a'' [(''href'', ''/item/1'')] [marker_span ''itemTitle'' '' Cover A ''],
        marker_span ''itemPrice'' ''100'']"

definition banner :: node where
  "banner = Tag ''div'' [(''data-aut-id'', ''itemBox'')] [NavigableString ''ad'']"

definition cover_b :: node where
  "cover_b = Tag ''div'' [(''class'', ''list ITEM-card'')] [marker_span ''itemTitle'' ''Cover B'']"

definition cover_bad :: node where
  "cover_bad =
     Tag ''div'' [(''data-aut-id'', ''itemBox'')]
       [Tag ''a'' [(''href'', ''//[x'')] [marker_span ''itemTitle'' ''Bad link'']]"

definition cover_na :: node where
  "cover_na = Tag ''div'' [(''data-aut-id'', ''itemBox'')] [marker_span ''itemTitle'' '' N/A '']"

definition sample_parser :: "string \<Rightarrow> py_error + node" where
  "sample_parser c =
     (if c = ''p1'' then Inr (Tag ''[document]'' [] [Tag ''body'' [] [cover_a, banner]])
      else if c = ''p3'' then Inr (Tag ''[document]'' [] [cover_b])
      else if c = ''bad'' then Inr (Tag ''[document]'' [] [cover_bad, cover_a])
      else if c = ''<![x]>'' then Inl ParserRejectedMarkup
      else Inr (Tag ''[document]'' [] []))"

definition sample_urljoin :: "string \<Rightarrow> string \<Rightarrow> py_error + string" where
  "sample_urljoin base url = (if url = ''//[x'' then Inl ValueError else Inr (base @ url))"

definition sample_env :: "(int \<times> http_result) list \<Rightarrow> env" where
  "sample_env pages =
     \<lparr>http_get = (\<lambda>url. case map_of (map (\<lambda>(p, r). (page_url p, r)) pages) url of
                          Some r \<Rightarrow> r
                        | None \<Rightarrow> RequestException ''404''),
      html_parser = sample_parser,
      urljoin = sample_urljoin,
      writable = (\<lambda>filename. True)\<rparr>"

definition record_a :: listing where
  "record_a =
     [(''title'', ''Cover A''), (''price'', ''100''), (''location'', ''N/A''),
      (''link'', ''https://www.olx.in/item/1''), (''date'', ''N/A''), (''description'', ''N/A'')]"

definition record_b :: listing where
  "record_b =
     [(''title'', ''Cover B''), (''price'', ''N/A''), (''location'', ''N/A''),
      (''link'', ''N/A''), (''date'', ''N/A''), (''description'', ''N/A'')]"

section \<open>Properties\<close>

subsection \<open>Extraction of one listing\<close>


lemma find_tag_Some:
  "find_tag n name a f = Some e \<Longrightarrow> e \<in> set (descendants n) \<and> tag_matches name a f e"
proof -
  assume "find_tag n name a f = Some e"
  then obtain es where "filter (tag_matches name a f) (descendants n) = e # es"
    by (auto simp add: find_tag_def find_all_def split: list.splits)
  then have "e \<in> set (filter (tag_matches name a f) (descendants n))"
    by simp
  then show ?thesis by simp
qed





lemma link_value_env:
  "link_value (env\<lparr>http_get := get', html_parser := parser', writable := writable'\<rparr>) n =
   link_value env n"
  by (simp add: link_value_def split: option.split)

lemma parse_fields_eq:
  "parse_fields env n =
     (case link_value env n of
        Inl e \<Rightarrow> Inl e
      | Inr l \<Rightarrow> Inr [(''title'', marker_text n ''itemTitle''), (''price'', marker_text n ''itemPrice''),
                     (''location'', marker_text n ''item-location''), (''link'', l),
                     (''date'', marker_text n ''itemDate''),
                     (''description'', marker_text n ''itemDescription'')])"
  by (simp add: parse_fields_def split: sum.split)

lemma parse_fields_title:
  "parse_fields env n = Inr d \<Longrightarrow> dict_get d ''title'' = Inr (marker_text n ''itemTitle'') \<and> d \<noteq> []"
  by (auto simp add: parse_fields_eq dict_get_def split: sum.splits)

lemma parse_fields_keys: "parse_fields env n = Inr d \<Longrightarrow> dict_keys d = listing_keys"
  by (auto simp add: parse_fields_eq dict_keys_def listing_keys_def split: sum.splits)

lemma parse_listings_eq:
  "parse_listings env ns all_listings st =
     (None, all_listings @ valid_records env ns, st\<lparr>trace := trace st @ parse_errors env ns\<rparr>)"
proof (induction ns arbitrary: all_listings st)
  case Nil
  show ?case by (simp add: valid_records_def parse_errors_def)
next
  case (Cons n ns)
  show ?case
  proof (cases "parse_fields env n")
    case (Inl e)
    then show ?thesis
      by (simp add: Cons.IH parse_listing_def valid_records_def valid_record_def parse_errors_def
          emit_def)
  next
    case (Inr d)
    then show ?thesis
      using parse_fields_title [OF Inr]
      by (simp add: Cons.IH parse_listing_def valid_records_def valid_record_def parse_errors_def
          emit_def)
  qed
qed


lemma valid_records_append:
  "valid_records env (xs @ ys) = valid_records env xs @ valid_records env ys"
  by (simp add: valid_records_def map_filter_def)

lemma valid_records_Cons_None:
  "valid_record env n = None \<Longrightarrow> valid_records env (n # ns) = valid_records env ns"
  by (simp add: valid_records_def)

lemma valid_record_title:
  "valid_record env n = Some r \<Longrightarrow>
   parse_fields env n = Inr r \<and> dict_get r ''title'' = Inr (marker_text n ''itemTitle'') \<and>
   marker_text n ''itemTitle'' \<noteq> ''N/A''"
  using parse_fields_title [of env n]
  by (auto simp add: valid_record_def split: sum.splits if_splits)

lemma valid_records_set:
  "set (valid_records env ns) = {r. \<exists>n \<in> set ns. valid_record env n = Some r}"
  by (induction ns) (auto simp add: valid_records_def split: option.splits)




subsection \<open>One page\<close>

lemma requests_append: "requests (xs @ ys) = requests xs @ requests ys"
  by (induction xs rule: requests.induct) simp_all

lemma requests_parse_errors: "requests (parse_errors env ns) = []"
  by (induction ns) (simp_all add: parse_errors_def requests_append split: sum.split)

lemma valid_records_Nil: "valid_records env [] = []"
  by (simp add: valid_records_def)

lemma scrape_page_failed:
  "http_get env (page_url page) = RequestException e \<Longrightarrow>
   scrape_page env page all_listings st =
     (Continue, all_listings,
      st\<lparr>trace := trace st @ [Log INFO (ScrapingPage page), HttpGet (page_url page),
                               Log ERROR (ErrorFetching (page_url page) e),
                               Log WARNING (FailedToFetchPage page)]\<rparr>)"
  by (simp add: scrape_page_def get_page_content_def emit_def Let_def)

lemma scrape_page_empty:
  "http_get env (page_url page) = Content [] \<Longrightarrow>
   scrape_page env page all_listings st =
     (Continue, all_listings,
      st\<lparr>trace := trace st @ [Log INFO (ScrapingPage page), HttpGet (page_url page),
                               Log WARNING (FailedToFetchPage page)]\<rparr>)"
  by (simp add: scrape_page_def get_page_content_def emit_def Let_def)

lemma scrape_page_rejected:
  "http_get env (page_url page) = Content c \<Longrightarrow> c \<noteq> [] \<Longrightarrow>
   html_parser env c = Inl e \<Longrightarrow>
   scrape_page env page all_listings st =
     (Raise e, all_listings,
      st\<lparr>trace := trace st @ [Log INFO (ScrapingPage page), HttpGet (page_url page)]\<rparr>)"
  by (simp add: scrape_page_def get_page_content_def emit_def Let_def)

lemma scrape_page_no_listings:
  "http_get env (page_url page) = Content c \<Longrightarrow> c \<noteq> [] \<Longrightarrow>
   html_parser env c = Inr soup \<Longrightarrow> find_listings soup = [] \<Longrightarrow>
   scrape_page env page all_listings st =
     (Break, all_listings,
      st\<lparr>trace := trace st @ [Log INFO (ScrapingPage page), HttpGet (page_url page),
                               Log WARNING (NoListingsFoundOnPage page)]\<rparr>)"
  by (simp add: scrape_page_def get_page_content_def emit_def Let_def)

lemma scrape_page_listings:
  "http_get env (page_url page) = Content c \<Longrightarrow> c \<noteq> [] \<Longrightarrow>
   html_parser env c = Inr soup \<Longrightarrow> find_listings soup = ns \<Longrightarrow> ns \<noteq> [] \<Longrightarrow>
   scrape_page env page all_listings st =
     (Continue, all_listings @ valid_records env ns,
      st\<lparr>trace := trace st @ [Log INFO (ScrapingPage page), HttpGet (page_url page),
                               Log INFO (FoundListingsOnPage (length ns) page)]
                            @ parse_errors env ns @ [Sleep 2]\<rparr>)"
  by (simp add: scrape_page_def get_page_content_def emit_def parse_listings_eq Let_def)

lemma scrape_page_flow:
  "fst (scrape_page env page all_listings st) =
     (case parse_error env page of
        Some e \<Rightarrow> Raise e
      | None \<Rightarrow> if discovery_fails env page then Break else Continue)"
proof (cases "http_get env (page_url page)")
  case (RequestException e)
  then show ?thesis
    by (simp add: scrape_page_failed discovery_fails_def parse_error_def page_content_def candidates_def)
next
  case (Content c)
  show ?thesis
  proof (cases "c = []")
    case True
    with Content show ?thesis
      by (simp add: scrape_page_empty discovery_fails_def parse_error_def page_content_def candidates_def)
  next
    case False
    show ?thesis
    proof (cases "html_parser env c")
      case (Inl e)
      with Content False show ?thesis
        by (simp add: scrape_page_rejected discovery_fails_def parse_error_def page_content_def candidates_def)
    next
      case (Inr soup)
      with Content False show ?thesis
        by (cases "find_listings soup = []")
           (simp_all add: scrape_page_no_listings scrape_page_listings discovery_fails_def parse_error_def page_content_def candidates_def)
    qed
  qed
qed

lemma scrape_page_collection:
  "fst (snd (scrape_page env page all_listings st)) =
     all_listings @ valid_records env (candidates env page)"
proof (cases "http_get env (page_url page)")
  case (RequestException e)
  then show ?thesis
    by (simp add: scrape_page_failed valid_records_Nil page_content_def candidates_def)
next
  case (Content c)
  show ?thesis
  proof (cases "c = []")
    case True
    with Content show ?thesis
      by (simp add: scrape_page_empty valid_records_Nil page_content_def candidates_def)
  next
    case False
    show ?thesis
    proof (cases "html_parser env c")
      case (Inl e)
      with Content False show ?thesis
        by (simp add: scrape_page_rejected valid_records_Nil page_content_def candidates_def)
    next
      case (Inr soup)
      with Content False show ?thesis
        by (cases "find_listings soup = []")
           (simp_all add: scrape_page_no_listings scrape_page_listings valid_records_Nil page_content_def candidates_def)
    qed
  qed
qed

lemma scrape_page_requests:
  "requests (trace (snd (snd (scrape_page env page all_listings st)))) =
     requests (trace st) @ [page_url page]"
proof (cases "http_get env (page_url page)")
  case (RequestException e)
  then show ?thesis
    by (simp add: scrape_page_failed requests_append requests_parse_errors)
next
  case (Content c)
  show ?thesis
  proof (cases "c = []")
    case True
    with Content show ?thesis
      by (simp add: scrape_page_empty requests_append requests_parse_errors)
  next
    case False
    show ?thesis
    proof (cases "html_parser env c")
      case (Inl e)
      with Content False show ?thesis
        by (simp add: scrape_page_rejected requests_append requests_parse_errors)
    next
      case (Inr soup)
      with Content False show ?thesis
        by (cases "find_listings soup = []")
           (simp_all add: scrape_page_no_listings scrape_page_listings requests_append requests_parse_errors)
    qed
  qed
qed

lemma scrape_page_files:
  "files (snd (snd (scrape_page env page all_listings st))) = files st"
proof (cases "http_get env (page_url page)")
  case (RequestException e)
  then show ?thesis
    by (simp add: scrape_page_failed)
next
  case (Content c)
  show ?thesis
  proof (cases "c = []")
    case True
    with Content show ?thesis
      by (simp add: scrape_page_empty)
  next
    case False
    show ?thesis
    proof (cases "html_parser env c")
      case (Inl e)
      with Content False show ?thesis
        by (simp add: scrape_page_rejected)
    next
      case (Inr soup)
      with Content False show ?thesis
        by (cases "find_listings soup = []")
           (simp_all add: scrape_page_no_listings scrape_page_listings)
    qed
  qed
qed



subsection \<open>The loop over the pages\<close>

lemma scrape_pages_eq:
  "\<exists>st'. scrape_pages env pages all_listings st =
           ((case run_error env pages of
               Some e \<Rightarrow> Inl e
             | None \<Rightarrow> Inr (all_listings @ concat (map (\<lambda>p. valid_records env (candidates env p))
                                                       (attempted env pages)))), st')
       \<and> requests (trace st') = requests (trace st) @ map page_url (attempted env pages)
       \<and> files st' = files st"
proof (induction pages arbitrary: all_listings st)
  case Nil
  show ?case by simp
next
  case (Cons page pages)
  obtain fl all' st1 where step: "scrape_page env page all_listings st = (fl, all', st1)"
    by (cases "scrape_page env page all_listings st") auto
  have fl: "fl = (case parse_error env page of
                    Some e \<Rightarrow> Raise e
                  | None \<Rightarrow> if discovery_fails env page then Break else Continue)"
    using scrape_page_flow [of env page all_listings st] step by simp
  have all': "all' = all_listings @ valid_records env (candidates env page)"
    using scrape_page_collection [of env page all_listings st] step by simp
  have req: "requests (trace st1) = requests (trace st) @ [page_url page]"
    using scrape_page_requests [of env page all_listings st] step by simp
  have fs: "files st1 = files st"
    using scrape_page_files [of env page all_listings st] step by simp
  show ?case
  proof (cases "parse_error env page")
    case (Some e)
    with step fl req fs show ?thesis
      by simp
  next
    case None
    show ?thesis
    proof (cases "discovery_fails env page")
      case True
      then have "candidates env page = []"
        by (simp add: discovery_fails_def)
      with True None step fl all' req fs show ?thesis
        by (simp add: valid_records_Nil)
    next
      case False
      from Cons.IH [of all' st1] obtain st' where
        rest: "scrape_pages env pages all' st1 =
                 ((case run_error env pages of
                     Some e \<Rightarrow> Inl e
                   | None \<Rightarrow> Inr (all' @ concat (map (\<lambda>p. valid_records env (candidates env p))
                                                     (attempted env pages)))), st')"
          "requests (trace st') = requests (trace st1) @ map page_url (attempted env pages)"
          "files st' = files st1"
        by blast
      with False None step fl all' req fs show ?thesis
        by (simp split: option.split)
    qed
  qed
qed

lemma scrape_listings_eq:
  "\<exists>st'. scrape_listings env max_pages st =
           ((case run_error env [1..max_pages] of
               Some e \<Rightarrow> Inl e
             | None \<Rightarrow> Inr (concat (map (\<lambda>p. valid_records env (candidates env p))
                                       (attempted env [1..max_pages])))), st')
       \<and> requests (trace st') = requests (trace st) @ map page_url (attempted env [1..max_pages])
       \<and> files st' = files st"
  using scrape_pages_eq [of env "[1..max_pages]" "[]" st]
  by (cases "run_error env [1..max_pages]") (simp_all add: scrape_listings_def)

lemma scrape_listings_Inr:
  "scrape_listings env max_pages st = (Inr all_listings, st') \<Longrightarrow>
   all_listings = concat (map (\<lambda>p. valid_records env (candidates env p))
                              (attempted env [1..max_pages]))"
  using scrape_listings_eq [of env max_pages st]
  by (auto split: option.splits)

lemma run_error_None:
  "(\<forall>k \<in> set pages. parse_error env k = None) \<Longrightarrow> run_error env pages = None"
  by (induction pages) auto

lemma run_error_Some:
  "run_error env pages = Some e \<Longrightarrow>
   \<exists>k \<in> set (attempted env pages). parse_error env k = Some e"
  by (induction pages) (auto split: option.splits if_splits)

subsection \<open>Page addresses\<close>





subsection \<open>The pages the loop gets to\<close>

lemma attempted_subset: "set (attempted env pages) \<subseteq> set pages"
  by (induction pages) auto




subsection \<open>The requests of a run\<close>










subsection \<open>The two files\<close>

lemma dict_to_list_ok:
  "set (dict_keys r) \<subseteq> set fieldnames \<Longrightarrow> dict_to_list fieldnames r = Inr (row_of fieldnames r)"
  by (auto simp add: dict_to_list_def row_of_def)

lemma writerows_ok:
  "\<forall>r \<in> set rs. set (dict_keys r) \<subseteq> set fieldnames \<Longrightarrow>
   writerows fieldnames rs written = (None, written @ map (row_of fieldnames) rs)"
  by (induction rs arbitrary: written) (simp_all add: dict_to_list_ok)

lemma json_field_listing: "json_field (json_of_listing r) k = map_of r k"
proof -
  have "map_of (map (\<lambda>(k, v). (k, JString v)) r) k = map_option JString (map_of r k)"
    by (induction r) auto
  then show ?thesis
    by (simp add: json_of_listing_def split: option.split)
qed

lemma csv_field_row:
  "k \<in> set fieldnames \<Longrightarrow> map_of r k = Some v \<Longrightarrow> csv_field fieldnames (row_of fieldnames r) k = Some v"
proof -
  assume k: "k \<in> set fieldnames" and v: "map_of r k = Some v"
  have "map_of (zip fieldnames (map f fieldnames)) k = Some (f k)" for f :: "string \<Rightarrow> string"
    using k by (induction fieldnames) auto
  with v show ?thesis
    by (simp add: csv_field_def row_of_def)
qed

lemma map_of_key: "k \<in> set (dict_keys r) \<Longrightarrow> \<exists>v. map_of r k = Some v"
  by (induction r) (auto simp add: dict_keys_def)

lemma scrape_listings_files:
  "files (snd (scrape_listings env max_pages st)) = files st"
  using scrape_listings_eq [of env max_pages st] by auto

lemma scrape_listings_keys:
  "scrape_listings env max_pages st = (Inr all_listings, st') \<Longrightarrow>
   \<forall>r \<in> set all_listings. dict_keys r = listing_keys"
proof -
  assume run: "scrape_listings env max_pages st = (Inr all_listings, st')"
  have "\<forall>r \<in> set (concat (map (\<lambda>p. valid_records env (candidates env p))
                                  (attempted env [1..max_pages]))). dict_keys r = listing_keys"
    using valid_record_title parse_fields_keys by (fastforce simp add: valid_records_set)
  with scrape_listings_Inr [OF run] show ?thesis
    by simp
qed


subsection \<open>Evaluating the sample inputs\<close>

lemma page_url_1: "page_url 1 = ''https://www.olx.in/items/q-car-cover''"
  by (simp add: page_url_def search_url_def)

lemma page_url_2: "page_url 2 = ''https://www.olx.in/items/q-car-cover?page=2''"
  by (simp add: page_url_def search_url_def str_int_def str_nat.simps digit_char_def)

lemma page_url_3: "page_url 3 = ''https://www.olx.in/items/q-car-cover?page=3''"
  by (simp add: page_url_def search_url_def str_int_def str_nat.simps digit_char_def)

lemmas sample_simps =
  sample_env_def sample_parser_def sample_urljoin_def cover_a_def cover_b_def cover_na_def
  cover_bad_def banner_def marker_span_def page_url_1 page_url_2 page_url_3 page_content_def
  parse_error_def candidates_def discovery_fails_def
  find_listings_def find_all_def tag_matches_def find_tag_def get_text_strip_def strip_def
  isspace_def valid_records_def valid_record_def parse_fields_eq marker_text_def link_value_def
  dict_get_def base_url_def record_a_def record_b_def init_state_def

lemma upto_1_3: "[1..3] = [1, 2, 3]"
  by (simp add: upto_rec1)

lemma sample_run:
  "fst (scrape_listings
          (sample_env [(1, Content ''p1''), (2, RequestException ''timeout''), (3, Content ''p3'')])
          3 init_state) = Inr [record_a, record_b]"
  by (simp add: scrape_listings_def upto_1_3 scrape_page_def get_page_content_def emit_def Let_def
      parse_listing_def sample_simps)

section \<open>The claims\<close>

text \<open>
  C1, as the claim states it, fails: when page 1 has no candidate node the run returns
  the empty collection and \<^verbatim>\<open>main\<close>, which saves under \<^verbatim>\<open>if listings\<close> only, writes no JSON
  file.
\<close>

theorem empty_run_json_counterexample:
  "writable (sample_env [(1, Content ''zz'')]) ''olx_car_covers.json'' \<and>
   discovery_fails (sample_env [(1, Content ''zz'')]) 1 \<and>
   fst (scrape_listings (sample_env [(1, Content ''zz'')]) 3 (emit (Log INFO StartingScraper) init_state))
     = Inr [] \<and>
   files (main (sample_env [(1, Content ''zz'')]) init_state) ''olx_car_covers.json'' = None \<and>
   trace (main (sample_env [(1, Content ''zz'')]) init_state) =
     [Log INFO StartingScraper, Log INFO (ScrapingPage 1), HttpGet (page_url 1),
      Log WARNING (NoListingsFoundOnPage 1), Log WARNING NoListingsFound]"
  by (simp add: main_def scrape_listings_def upto_1_3 scrape_page_def get_page_content_def emit_def
      Let_def sample_simps)

text \<open>
  C1, amended. A run whose page 1 has no candidate node returns the empty collection.
  When the run returns the empty collection, \<^verbatim>\<open>main\<close> logs the warning that no listings
  were found and calls neither save: no file is written, CSV or JSON. Called on the
  empty collection, \<^verbatim>\<open>save_to_csv\<close> logs a warning and writes no file, and
  \<^verbatim>\<open>save_to_json\<close> writes the empty array when the file can be opened.
\<close>

theorem empty_run_writes_no_file:
  "(discovery_fails env 1 \<longrightarrow> fst (scrape_listings env 3 st) = Inr []) \<and>
   (fst (scrape_listings env 3 (emit (Log INFO StartingScraper) st)) = Inr [] \<longrightarrow>
      files (main env st) = files st \<and>
      trace (main env st) =
        trace (snd (scrape_listings env 3 (emit (Log INFO StartingScraper) st))) @
        [Log WARNING NoListingsFound]) \<and>
   save_to_csv env [] filename st = emit (Log WARNING NoListingsToSave) st \<and>
   (writable env filename \<longrightarrow>
      save_to_json env [] filename st =
        emit (Log INFO (SavedListings 0 filename)) (write_file filename (JsonFile (JArray [])) st))"
proof -
  have first: "discovery_fails env 1 \<longrightarrow> fst (scrape_listings env 3 st) = Inr []"
  proof
    assume f: "discovery_fails env 1"
    then have "attempted env [1..3] = [1]" "candidates env 1 = []" "run_error env [1..3] = None"
      by (simp_all add: upto_1_3 discovery_fails_def)
    with scrape_listings_eq [of env 3 st] show "fst (scrape_listings env 3 st) = Inr []"
      by (auto simp add: valid_records_Nil)
  qed
  have gate: "fst (scrape_listings env 3 (emit (Log INFO StartingScraper) st)) = Inr [] \<longrightarrow>
      files (main env st) = files st \<and>
      trace (main env st) =
        trace (snd (scrape_listings env 3 (emit (Log INFO StartingScraper) st))) @
        [Log WARNING NoListingsFound]"
  proof
    assume e: "fst (scrape_listings env 3 (emit (Log INFO StartingScraper) st)) = Inr []"
    obtain st' where run: "scrape_listings env 3 (emit (Log INFO StartingScraper) st) = (Inr [], st')"
      using e by (cases "scrape_listings env 3 (emit (Log INFO StartingScraper) st)") auto
    have "files st' = files st"
      using scrape_listings_files [of env 3 "emit (Log INFO StartingScraper) st"] run
      by (simp add: emit_def)
    with run show "files (main env st) = files st \<and>
      trace (main env st) =
        trace (snd (scrape_listings env 3 (emit (Log INFO StartingScraper) st))) @
        [Log WARNING NoListingsFound]"
      by (simp add: main_def emit_def)
  qed
  have csv: "save_to_csv env [] filename st = emit (Log WARNING NoListingsToSave) st"
    by (simp add: save_to_csv_def)
  have json: "writable env filename \<longrightarrow>
      save_to_json env [] filename st =
        emit (Log INFO (SavedListings 0 filename)) (write_file filename (JsonFile (JArray [])) st)"
    by (simp add: save_to_json_def)
  from first gate csv json show ?thesis by blast
qed

theorem empty_run_writes_no_file_witness:
  "discovery_fails (sample_env [(1, Content ''zz'')]) 1 \<and>
   fst (scrape_listings (sample_env [(1, Content ''zz'')]) 3 (emit (Log INFO StartingScraper) init_state))
     = Inr [] \<and>
   files (main (sample_env [(1, Content ''zz'')]) init_state) = files init_state \<and>
   writable (sample_env [(1, Content ''zz'')]) ''olx_car_covers.json'' \<and>
   files (save_to_json (sample_env [(1, Content ''zz'')]) [] ''olx_car_covers.json'' init_state)
     ''olx_car_covers.json'' = Some (JsonFile (JArray []))"
proof -
  let ?E = "sample_env [(1, Content ''zz'')]"
  have h1: "discovery_fails ?E 1"
    by (simp add: sample_simps)
  have h2: "writable ?E ''olx_car_covers.json''"
    by (simp add: sample_env_def)
  note c1 = empty_run_writes_no_file [of ?E _ "''olx_car_covers.json''"]
  from c1 [of "emit (Log INFO StartingScraper) init_state"] h1
  have e: "fst (scrape_listings ?E 3 (emit (Log INFO StartingScraper) init_state)) = Inr []"
    by blast
  with c1 [of init_state] have "files (main ?E init_state) = files init_state"
    by blast
  moreover from c1 [of init_state] h2
  have "files (save_to_json ?E [] ''olx_car_covers.json'' init_state) ''olx_car_covers.json'' =
          Some (JsonFile (JArray []))"
    by (simp add: write_file_def emit_def)
  ultimately show ?thesis
    using h1 h2 e by simp
qed






text \<open>
  C4. A run returns a collection or ends with the exception the parser raised on one of
  its pages. Every record of the collection a run returns has a title, and the title is
  not \<^verbatim>\<open>N/A\<close>. Nothing else is asked of a record: whatever \<^verbatim>\<open>parse_listing\<close> returns for a
  candidate node with another title is in the collection. The inner loop and the loop
  body only ever add records at the end of the collection they are given, each with a
  title that is not \<^verbatim>\<open>N/A\<close>, and the loop returns the collection it was given with records
  added at its end, or raises.
\<close>

theorem collection_holds_titled_records:
  "((\<exists>all_listings st'. scrape_listings env max_pages st = (Inr all_listings, st') \<and>
       (\<forall>r \<in> set all_listings. \<exists>t. dict_get r ''title'' = Inr t \<and> t \<noteq> ''N/A'')) \<or>
    (\<exists>e st' k. scrape_listings env max_pages st = (Inl e, st') \<and>
       1 \<le> k \<and> k \<le> max_pages \<and> parse_error env k = Some e)) \<and>
   (\<forall>n r. n \<in> set listings \<and> parse_fields env n = Inr r \<and> dict_get r ''title'' \<noteq> Inr ''N/A'' \<longrightarrow>
      r \<in> set (fst (snd (parse_listings env listings collected st)))) \<and>
   (\<exists>rs. fst (snd (parse_listings env listings collected st)) = collected @ rs \<and>
      (\<forall>r \<in> set rs. \<exists>t. dict_get r ''title'' = Inr t \<and> t \<noteq> ''N/A'')) \<and>
   (\<exists>rs. fst (snd (scrape_page env page collected st)) = collected @ rs \<and>
      (\<forall>r \<in> set rs. \<exists>t. dict_get r ''title'' = Inr t \<and> t \<noteq> ''N/A'')) \<and>
   ((\<exists>rs st'. scrape_pages env pages collected st = (Inr (collected @ rs), st')) \<or>
    (\<exists>e st'. scrape_pages env pages collected st = (Inl e, st')))"
proof -
  have titled: "\<forall>r \<in> set (valid_records env ns). \<exists>t. dict_get r ''title'' = Inr t \<and> t \<noteq> ''N/A''"
    for ns
    using valid_record_title by (auto simp add: valid_records_set)
  from scrape_listings_eq [of env max_pages st] obtain st' where
    run: "scrape_listings env max_pages st =
           ((case run_error env [1..max_pages] of
               Some e \<Rightarrow> Inl e
             | None \<Rightarrow> Inr (concat (map (\<lambda>p. valid_records env (candidates env p))
                                       (attempted env [1..max_pages])))), st')"
    by blast
  have returned:
    "(\<exists>all_listings st'. scrape_listings env max_pages st = (Inr all_listings, st') \<and>
       (\<forall>r \<in> set all_listings. \<exists>t. dict_get r ''title'' = Inr t \<and> t \<noteq> ''N/A'')) \<or>
     (\<exists>e st' k. scrape_listings env max_pages st = (Inl e, st') \<and>
       1 \<le> k \<and> k \<le> max_pages \<and> parse_error env k = Some e)"
  proof (cases "run_error env [1..max_pages]")
    case None
    have "\<forall>r \<in> set (concat (map (\<lambda>p. valid_records env (candidates env p))
                                  (attempted env [1..max_pages]))).
            \<exists>t. dict_get r ''title'' = Inr t \<and> t \<noteq> ''N/A''"
      using titled by auto
    with run None show ?thesis by auto
  next
    case (Some e)
    from run_error_Some [OF Some] obtain k where
      k: "k \<in> set (attempted env [1..max_pages])" "parse_error env k = Some e"
      by blast
    from k(1) attempted_subset [of env "[1..max_pages]"] have "1 \<le> k \<and> k \<le> max_pages"
      by auto
    with run Some k(2) show ?thesis by auto
  qed
  have included: "\<forall>n r. n \<in> set listings \<and> parse_fields env n = Inr r \<and>
                     dict_get r ''title'' \<noteq> Inr ''N/A'' \<longrightarrow>
      r \<in> set (fst (snd (parse_listings env listings collected st)))"
  proof (intro allI impI)
    fix n r
    assume a: "n \<in> set listings \<and> parse_fields env n = Inr r \<and> dict_get r ''title'' \<noteq> Inr ''N/A''"
    then have "valid_record env n = Some r"
      by (simp add: valid_record_def)
    with a have "r \<in> set (valid_records env listings)"
      by (auto simp add: valid_records_set)
    then show "r \<in> set (fst (snd (parse_listings env listings collected st)))"
      by (simp add: parse_listings_eq)
  qed
  have inner: "\<exists>rs. fst (snd (parse_listings env listings collected st)) = collected @ rs \<and>
      (\<forall>r \<in> set rs. \<exists>t. dict_get r ''title'' = Inr t \<and> t \<noteq> ''N/A'')"
    using titled [of listings] by (simp add: parse_listings_eq)
  have page: "\<exists>rs. fst (snd (scrape_page env page collected st)) = collected @ rs \<and>
      (\<forall>r \<in> set rs. \<exists>t. dict_get r ''title'' = Inr t \<and> t \<noteq> ''N/A'')"
    using titled [of "candidates env page"] by (simp add: scrape_page_collection)
  have outer: "(\<exists>rs st'. scrape_pages env pages collected st = (Inr (collected @ rs), st')) \<or>
    (\<exists>e st'. scrape_pages env pages collected st = (Inl e, st'))"
    using scrape_pages_eq [of env pages collected st]
    by (cases "run_error env pages") auto
  from returned included inner page outer show ?thesis
    by blast
qed

theorem collection_holds_titled_records_witness:
  "fst (scrape_listings
          (sample_env [(1, Content ''p1''), (2, RequestException ''timeout''), (3, Content ''p3'')])
          3 init_state) = Inr [record_a, record_b] \<and>
   (\<exists>t. dict_get record_a ''title'' = Inr t \<and> t \<noteq> ''N/A'') \<and>
   (\<exists>t. dict_get record_b ''title'' = Inr t \<and> t \<noteq> ''N/A'')"
  using sample_run
    collection_holds_titled_records
      [of "sample_env [(1, Content ''p1''), (2, RequestException ''timeout''), (3, Content ''p3'')]"
          3 init_state "[]" "[]" 1 "[]"]
  by auto






text \<open>
  C7. For a collection whose records all have the six keys and whose first record has
  them in the order title, price, location, link, date, description (every collection
  a run returns is such), and two files that can be written: after both saves the JSON
  file holds an array with one object per record; the CSV file holds the header row of
  the six keys and one row per record, or is left as it was when the collection is
  empty; at every index and for every key, the value in the object and the value in the
  row under that key's column are the value of the record.
\<close>

theorem json_and_csv_agree:
  assumes "\<forall>r \<in> set listings. set (dict_keys r) = set listing_keys"
      and "listings \<noteq> [] \<longrightarrow> dict_keys (hd listings) = listing_keys"
      and "writable env json_name" and "writable env csv_name" and "json_name \<noteq> csv_name"
  shows "\<exists>objects rows.
      files (save_to_csv env listings csv_name (save_to_json env listings json_name st)) json_name =
        Some (JsonFile (JArray objects)) \<and>
      files (save_to_csv env listings csv_name (save_to_json env listings json_name st)) csv_name =
        (if listings = [] then files st csv_name else Some (CsvFile (listing_keys # rows))) \<and>
      length objects = length listings \<and> length rows = length listings \<and>
      (\<forall>i k. i < length listings \<and> k \<in> set listing_keys \<longrightarrow>
         (\<exists>v. map_of (listings ! i) k = Some v \<and> json_field (objects ! i) k = Some v \<and>
              csv_field listing_keys (rows ! i) k = Some v))"
proof -
  let ?st' = "save_to_csv env listings csv_name (save_to_json env listings json_name st)"
  from assms(1) have "\<forall>r \<in> set listings. set (dict_keys r) \<subseteq> set listing_keys"
    by simp
  then have rows: "writerows listing_keys listings [listing_keys] =
                     (None, listing_keys # map (row_of listing_keys) listings)"
    using writerows_ok [of listings listing_keys "[listing_keys]"] by simp
  have json: "files ?st' json_name = Some (JsonFile (JArray (map json_of_listing listings)))"
  proof (cases listings)
    case Nil
    with assms(3,5) show ?thesis
      by (simp add: save_to_csv_def save_to_json_def write_file_def emit_def)
  next
    case (Cons first rest)
    with assms(2) have "dict_keys first = listing_keys" by simp
    with Cons assms(3,4,5) rows show ?thesis
      by (simp add: save_to_csv_def save_to_json_def write_file_def emit_def)
  qed
  have csv: "files ?st' csv_name =
        (if listings = [] then files st csv_name
         else Some (CsvFile (listing_keys # map (row_of listing_keys) listings)))"
  proof (cases listings)
    case Nil
    with assms(3,5) show ?thesis
      by (simp add: save_to_csv_def save_to_json_def write_file_def emit_def)
  next
    case (Cons first rest)
    with assms(2) have "dict_keys first = listing_keys" by simp
    with Cons assms(3,4,5) rows show ?thesis
      by (simp add: save_to_csv_def save_to_json_def write_file_def emit_def)
  qed
  have fields: "\<forall>i k. i < length listings \<and> k \<in> set listing_keys \<longrightarrow>
         (\<exists>v. map_of (listings ! i) k = Some v \<and>
              json_field (map json_of_listing listings ! i) k = Some v \<and>
              csv_field listing_keys (map (row_of listing_keys) listings ! i) k = Some v)"
  proof (intro allI impI)
    fix i k
    assume a: "i < length listings \<and> k \<in> set listing_keys"
    then have "listings ! i \<in> set listings" by simp
    with assms(1) a have "k \<in> set (dict_keys (listings ! i))" by auto
    then obtain v where v: "map_of (listings ! i) k = Some v"
      using map_of_key by blast
    with a show "\<exists>v. map_of (listings ! i) k = Some v \<and>
              json_field (map json_of_listing listings ! i) k = Some v \<and>
              csv_field listing_keys (map (row_of listing_keys) listings ! i) k = Some v"
      by (simp add: json_field_listing csv_field_row)
  qed
  show ?thesis
    using json csv fields
    by (intro exI [of _ "map json_of_listing listings"]
              exI [of _ "map (row_of listing_keys) listings"]) simp
qed

theorem json_and_csv_agree_witness:
  "set (dict_keys record_a) = set listing_keys \<and> set (dict_keys record_b) = set listing_keys \<and>
   dict_keys (hd [record_a, record_b]) = listing_keys \<and>
   writable (sample_env []) ''olx_car_covers.json'' \<and> writable (sample_env []) ''olx_car_covers.csv'' \<and>
   (\<exists>objects rows.
      files (save_to_csv (sample_env []) [record_a, record_b] ''olx_car_covers.csv''
               (save_to_json (sample_env []) [record_a, record_b] ''olx_car_covers.json'' init_state))
        ''olx_car_covers.json'' = Some (JsonFile (JArray objects)) \<and>
      files (save_to_csv (sample_env []) [record_a, record_b] ''olx_car_covers.csv''
               (save_to_json (sample_env []) [record_a, record_b] ''olx_car_covers.json'' init_state))
        ''olx_car_covers.csv'' = Some (CsvFile (listing_keys # rows)) \<and>
      length objects = 2 \<and> length rows = 2 \<and>
      json_field (objects ! 1) ''title'' = Some ''Cover B'' \<and>
      csv_field listing_keys (rows ! 1) ''title'' = Some ''Cover B'')"
proof -
  have h2: "dict_keys (hd [record_a, record_b]) = listing_keys"
    by (simp add: dict_keys_def record_a_def listing_keys_def)
  then have h2': "[record_a, record_b] \<noteq> [] \<longrightarrow> dict_keys (hd [record_a, record_b]) = listing_keys"
    by simp
  have ka: "set (dict_keys record_a) = set listing_keys"
    by (simp add: dict_keys_def record_a_def listing_keys_def)
  have kb: "set (dict_keys record_b) = set listing_keys"
    by (simp add: dict_keys_def record_b_def listing_keys_def)
  from ka kb have h1: "\<forall>r \<in> set [record_a, record_b]. set (dict_keys r) = set listing_keys"
    by simp
  have h3: "writable (sample_env []) ''olx_car_covers.json''"
    by (simp add: sample_env_def)
  have h4: "writable (sample_env []) ''olx_car_covers.csv''"
    by (simp add: sample_env_def)
  have h5: "''olx_car_covers.json'' \<noteq> ''olx_car_covers.csv''"
    by simp
  have b: "map_of record_b ''title'' = Some ''Cover B''" "(1::nat) < length [record_a, record_b]"
    "''title'' \<in> set listing_keys"
    by (simp_all add: record_b_def listing_keys_def)
  from json_and_csv_agree [OF h1 h2' h3 h4 h5, of init_state]
  obtain objects rows where
    o: "files (save_to_csv (sample_env []) [record_a, record_b] ''olx_car_covers.csv''
               (save_to_json (sample_env []) [record_a, record_b] ''olx_car_covers.json'' init_state))
        ''olx_car_covers.json'' = Some (JsonFile (JArray objects))"
       "files (save_to_csv (sample_env []) [record_a, record_b] ''olx_car_covers.csv''
               (save_to_json (sample_env []) [record_a, record_b] ''olx_car_covers.json'' init_state))
        ''olx_car_covers.csv'' = Some (CsvFile (listing_keys # rows))"
       "length objects = length [record_a, record_b]" "length rows = length [record_a, record_b]"
    and f: "\<forall>i k. i < length [record_a, record_b] \<and> k \<in> set listing_keys \<longrightarrow>
         (\<exists>v. map_of ([record_a, record_b] ! i) k = Some v \<and> json_field (objects ! i) k = Some v \<and>
              csv_field listing_keys (rows ! i) k = Some v)"
    by auto
  from f b obtain v where "map_of ([record_a, record_b] ! 1) ''title'' = Some v"
    "json_field (objects ! 1) ''title'' = Some v" "csv_field listing_keys (rows ! 1) ''title'' = Some v"
    by blast
  with b have "json_field (objects ! 1) ''title'' = Some ''Cover B''"
    "csv_field listing_keys (rows ! 1) ''title'' = Some ''Cover B''"
    by simp_all
  with o h2 ka kb h3 h4 show ?thesis
    by auto
qed

text \<open>
  C8. What \<^verbatim>\<open>parse_listing\<close> returns for a node depends on the node (and on \<^verbatim>\<open>urljoin\<close>)
  only: not on the state it runs in, nor on the network, the parser or the file system.
  It leaves the state as it is when it returns a record, and adds one error line to the
  log when it does not.
\<close>

theorem parse_listing_is_pure:
  "fst (parse_listing env n st) =
     fst (parse_listing (env\<lparr>http_get := get', html_parser := parser', writable := writable'\<rparr>) n st') \<and>
   snd (parse_listing env n st) =
     (case parse_fields env n of
        Inr r \<Rightarrow> st
      | Inl e \<Rightarrow> st\<lparr>trace := trace st @ [Log ERROR (ErrorParsingListing e)]\<rparr>)"
  by (simp add: parse_listing_def parse_fields_eq link_value_env emit_def split: sum.split)

theorem parse_listing_is_pure_witness:
  "fst (parse_listing (sample_env []) cover_a init_state) = Some record_a \<and>
   fst (parse_listing (sample_env [(1, Content ''p1'')]\<lparr>writable := (\<lambda>f. False)\<rparr>) cover_a
          (init_state\<lparr>trace := [Sleep 2]\<rparr>)) = Some record_a"
proof -
  have "fst (parse_listing (sample_env []) cover_a init_state) = Some record_a"
    by (simp add: parse_listing_def sample_simps)
  moreover have "sample_env [(1, Content ''p1'')]\<lparr>writable := (\<lambda>f. False)\<rparr> =
      (sample_env [])\<lparr>http_get := http_get (sample_env [(1, Content ''p1'')]),
                       html_parser := sample_parser, writable := (\<lambda>f. False)\<rparr>"
    by (simp add: sample_env_def)
  ultimately show ?thesis
    using parse_listing_is_pure [where env = "sample_env []" and n = cover_a and st = init_state
        and get' = "http_get (sample_env [(1, Content ''p1'')])" and parser' = sample_parser
        and writable' = "\<lambda>f. False" and st' = "init_state\<lparr>trace := [Sleep 2]\<rparr>"]
    by simp
qed

text \<open>
  C9. A page whose fetch succeeds with an empty body is handled by the loop as a failed
  fetch is: \<^verbatim>\<open>get_page_content\<close> returns the empty body (not \<^verbatim>\<open>None\<close>) and logs nothing,
  the loop logs the page as failed, leaves the collection as it is and goes on with the
  next page; the parser and the extractor are not run on the body. Under a transport
  failure the loop does the same, after the error line that \<^verbatim>\<open>get_page_content\<close> logs.
\<close>

theorem empty_payload_is_skipped:
  assumes "http_get env (page_url page) = Content []"
  shows "get_page_content env (page_url page) st = (Some [], emit (HttpGet (page_url page)) st) \<and>
         scrape_page env page all_listings st =
           (Continue, all_listings,
            st\<lparr>trace := trace st @ [Log INFO (ScrapingPage page), HttpGet (page_url page),
                                     Log WARNING (FailedToFetchPage page)]\<rparr>) \<and>
         scrape_pages env (page # pages) all_listings st =
           scrape_pages env pages all_listings
             (st\<lparr>trace := trace st @ [Log INFO (ScrapingPage page), HttpGet (page_url page),
                                      Log WARNING (FailedToFetchPage page)]\<rparr>) \<and>
         (\<forall>env' e. http_get env' (page_url page) = RequestException e \<longrightarrow>
            scrape_page env' page all_listings st =
              (Continue, all_listings,
               st\<lparr>trace := trace st @ [Log INFO (ScrapingPage page), HttpGet (page_url page),
                                        Log ERROR (ErrorFetching (page_url page) e),
                                        Log WARNING (FailedToFetchPage page)]\<rparr>))"
proof -
  have "get_page_content env (page_url page) st = (Some [], emit (HttpGet (page_url page)) st)"
    using assms by (simp add: get_page_content_def)
  moreover note step = scrape_page_empty [OF assms, of all_listings st]
  moreover have "scrape_pages env (page # pages) all_listings st =
           scrape_pages env pages all_listings
             (st\<lparr>trace := trace st @ [Log INFO (ScrapingPage page), HttpGet (page_url page),
                                      Log WARNING (FailedToFetchPage page)]\<rparr>)"
    by (simp add: step)
  ultimately show ?thesis
    by (simp add: scrape_page_failed)
qed

theorem empty_payload_is_skipped_witness:
  "http_get (sample_env [(1, Content []), (2, Content ''p1'')]) (page_url 1) = Content [] \<and>
   scrape_page (sample_env [(1, Content []), (2, Content ''p1'')]) 1 [] init_state =
     (Continue, [],
      init_state\<lparr>trace := [Log INFO (ScrapingPage 1), HttpGet (page_url 1),
                             Log WARNING (FailedToFetchPage 1)]\<rparr>)"
proof -
  have h: "http_get (sample_env [(1, Content []), (2, Content ''p1'')]) (page_url 1) = Content []"
    by (simp add: sample_env_def page_url_1 page_url_2)
  show ?thesis
    using h empty_payload_is_skipped [OF h, of init_state "[]" "[]"]
    by (simp add: init_state_def)
qed

text \<open>
  C10. A listing whose title element is there and whose stripped text is the literal
  \<^verbatim>\<open>N/A\<close> gets the title \<^verbatim>\<open>N/A\<close>, the value an absent title element gets, and the
  filter on the title leaves it out: the collection is the one the page yields without
  that listing.
\<close>

theorem literal_na_title_is_excluded:
  assumes "find_tag n ''span'' ''data-aut-id'' (Equals ''itemTitle'') = Some e"
      and "get_text_strip e = ''N/A''"
  shows "(\<forall>r. parse_fields env n = Inr r \<longrightarrow> dict_get r ''title'' = Inr ''N/A'') \<and>
         fst (snd (parse_listings env (before @ n # after) all_listings st)) =
           fst (snd (parse_listings env (before @ after) all_listings st)) \<and>
         (\<forall>n'. find_tag n' ''span'' ''data-aut-id'' (Equals ''itemTitle'') = None \<longrightarrow>
                marker_text n' ''itemTitle'' = marker_text n ''itemTitle'')"
proof -
  have title: "marker_text n ''itemTitle'' = ''N/A''"
    using assms by (simp add: marker_text_def)
  have "valid_record env n = None"
  proof (cases "valid_record env n")
    case None
    then show ?thesis .
  next
    case (Some r)
    from valid_record_title [OF Some] title show ?thesis by simp
  qed
  then have "valid_records env (before @ n # after) = valid_records env (before @ after)"
    by (simp add: valid_records_append valid_records_Cons_None)
  moreover have "\<forall>r. parse_fields env n = Inr r \<longrightarrow> dict_get r ''title'' = Inr ''N/A''"
    using parse_fields_title [of env n] title by auto
  moreover have "\<forall>n'. find_tag n' ''span'' ''data-aut-id'' (Equals ''itemTitle'') = None \<longrightarrow>
                marker_text n' ''itemTitle'' = marker_text n ''itemTitle''"
    using title by (simp add: marker_text_def)
  ultimately show ?thesis
    by (simp add: parse_listings_eq)
qed

theorem literal_na_title_is_excluded_witness:
  "find_tag cover_na ''span'' ''data-aut-id'' (Equals ''itemTitle'') =
     Some (marker_span ''itemTitle'' '' N/A '') \<and>
   get_text_strip (marker_span ''itemTitle'' '' N/A '') = ''N/A'' \<and>
   fst (snd (parse_listings (sample_env []) [cover_a, cover_na, cover_b] [] init_state)) =
     [record_a, record_b]"
proof -
  have h1: "find_tag cover_na ''span'' ''data-aut-id'' (Equals ''itemTitle'') =
              Some (marker_span ''itemTitle'' '' N/A '')"
    by (simp add: sample_simps)
  have h2: "get_text_strip (marker_span ''itemTitle'' '' N/A '') = ''N/A''"
    by (simp add: sample_simps)
  have rest: "fst (snd (parse_listings (sample_env []) ([cover_a] @ [cover_b]) [] init_state)) =
                [record_a, record_b]"
    by (simp add: parse_listings_eq sample_simps)
  show ?thesis
    using h1 h2 rest
      literal_na_title_is_excluded [OF h1 h2, of "sample_env []" "[cover_a]" "[cover_b]" "[]" init_state]
    by simp
qed

end
